theory Spec2Isabelle
  imports Main
begin

section \<open>URL query-parameter state: \<open>registry/hooks/use-query-state.ts\<close>\<close>

subsection \<open>The query snapshot (\<open>URLSearchParams\<close>)\<close>

text \<open>
  A \<open>URLSearchParams\<close> object holds an ordered list of name/value pairs in which a name
  may repeat. The four methods the hooks call are modelled as the URL standard defines
  them: \<open>get\<close> returns the value of the first pair with the name (\<open>null\<close>, here
  \<open>None\<close>, when there is none), \<open>has\<close> tells whether some pair has the name,
  \<open>delete\<close> removes every pair with the name, and \<open>set\<close> overwrites the first pair
  with the name and removes the others, or appends a pair when the name is new.
\<close>

type_synonym URLSearchParams = "(string \<times> string) list"

fun sp_get :: "URLSearchParams \<Rightarrow> string \<Rightarrow> string option" where
  "sp_get [] key = None"
| "sp_get ((n, x) # ps) key = (if n = key then Some x else sp_get ps key)"

fun sp_has :: "URLSearchParams \<Rightarrow> string \<Rightarrow> bool" where
  "sp_has [] key = False"
| "sp_has ((n, x) # ps) key = (n = key \<or> sp_has ps key)"

fun sp_delete :: "URLSearchParams \<Rightarrow> string \<Rightarrow> URLSearchParams" where
  "sp_delete [] key = []"
| "sp_delete ((n, x) # ps) key = (if n = key then sp_delete ps key else (n, x) # sp_delete ps key)"

fun sp_set :: "URLSearchParams \<Rightarrow> string \<Rightarrow> string \<Rightarrow> URLSearchParams" where
  "sp_set [] key v = [(key, v)]"
| "sp_set ((n, x) # ps) key v =
     (if n = key then (key, v) # sp_delete ps key else (n, x) # sp_set ps key v)"

subsection \<open>JavaScript values\<close>

text \<open>
  A string is truthy when it is not empty; \<open>null\<close> and \<open>undefined\<close> (both \<open>None\<close>)
  are falsy. \<open>a ?? b\<close> is \<open>a\<close> unless \<open>a\<close> is nullish. \<open>a !== b\<close> between a
  \<open>string | null\<close> and a \<open>string | undefined\<close> is false only for two equal strings:
  \<open>null !== undefined\<close> holds. A \<open>string | undefined\<close> handed to
  \<open>URLSearchParams.set\<close> is converted to a string, \<open>undefined\<close> becoming the text
  \<open>undefined\<close>.
\<close>

definition truthy :: "string \<Rightarrow> bool" where
  "truthy s = (s \<noteq> [])"

definition truthy_maybe :: "string option \<Rightarrow> bool" where
  "truthy_maybe m = (case m of None \<Rightarrow> False | Some s \<Rightarrow> truthy s)"

definition nullish_or :: "string option \<Rightarrow> string \<Rightarrow> string" where
  "nullish_or m d = (case m of None \<Rightarrow> d | Some s \<Rightarrow> s)"

definition strict_neq :: "string option \<Rightarrow> string option \<Rightarrow> bool" where
  "strict_neq a b = (case a of None \<Rightarrow> True | Some x \<Rightarrow> (case b of None \<Rightarrow> True | Some y \<Rightarrow> x \<noteq> y))"

definition to_usv :: "string option \<Rightarrow> string" where
  "to_usv m = (case m of None \<Rightarrow> ''undefined'' | Some s \<Rightarrow> s)"

subsection \<open>Key configuration (\<open>UseQueryStateOptions\<close>)\<close>

text \<open>
  \<open>UseQueryStateOptions\<close> is \<open>Partial<{defaultValue, schema, onParseError}>\<close>: each
  property is either absent (\<open>None\<close>) or holds a value. A schema is used through
  \<open>safeParse\<close> only, which returns success with a string or failure, so it is a function
  from the raw string to an optional string. \<open>Object.keys(options).length === 0\<close> holds
  when all three properties are absent.
\<close>

datatype ParseErrorPolicy = Fallback | Remove

record UseQueryStateOptions =
  defaultValue :: "string option"
  schema :: "(string \<Rightarrow> string option) option"
  onParseError :: "ParseErrorPolicy option"

definition no_keys :: "UseQueryStateOptions \<Rightarrow> bool" where
  "no_keys opts =
     ((case defaultValue opts of None \<Rightarrow> True | Some _ \<Rightarrow> False) \<and>
      (case schema opts of None \<Rightarrow> True | Some _ \<Rightarrow> False) \<and>
      (case onParseError opts of None \<Rightarrow> True | Some _ \<Rightarrow> False))"

definition hasSchema :: "UseQueryStateOptions \<Rightarrow> bool" where
  "hasSchema opts = (case schema opts of None \<Rightarrow> False | Some _ \<Rightarrow> True)"

definition hasDefaultValue :: "UseQueryStateOptions \<Rightarrow> bool" where
  "hasDefaultValue opts = truthy_maybe (defaultValue opts)"

subsection \<open>Update Policy (\<open>updateQueryState\<close>)\<close>

text \<open>
  \<open>const { defaultValue, schema, onParseError = "fallback" } = options\<close>: the policy is
  \<open>"fallback"\<close> when the property is absent.
\<close>

definition onParseError_of :: "UseQueryStateOptions \<Rightarrow> ParseErrorPolicy" where
  "onParseError_of opts = (case onParseError opts of None \<Rightarrow> Fallback | Some p \<Rightarrow> p)"

definition shouldFallback :: "UseQueryStateOptions \<Rightarrow> bool" where
  "shouldFallback opts = (onParseError_of opts = Fallback \<and> truthy_maybe (defaultValue opts))"

definition shouldRemove :: "UseQueryStateOptions \<Rightarrow> bool" where
  "shouldRemove opts = (onParseError_of opts = Remove \<or> \<not> truthy_maybe (defaultValue opts))"

text \<open>
  The three statements that follow the \<open>if (schema)\<close> block (lines 281 to 293 of the
  source): reached when there is no schema, or when the schema block returns nowhere.
\<close>

definition updateQueryState_rest ::
  "string \<Rightarrow> string \<Rightarrow> URLSearchParams \<Rightarrow> UseQueryStateOptions \<Rightarrow> URLSearchParams" where
  "updateQueryState_rest key v searchParams opts =
     (if \<not> truthy v \<and> shouldFallback opts then sp_set searchParams key (to_usv (defaultValue opts))
      else if \<not> truthy v \<and> shouldRemove opts then sp_delete searchParams key
      else if truthy v then sp_set searchParams key v
      else searchParams)"

text \<open>
  \<open>updateQueryState\<close> mutates the \<open>URLSearchParams\<close> it is given and returns nothing;
  the model returns the new contents of that object.
\<close>

definition updateQueryState ::
  "string \<Rightarrow> string \<Rightarrow> URLSearchParams \<Rightarrow> UseQueryStateOptions option \<Rightarrow> URLSearchParams" where
  "updateQueryState key v searchParams options =
     (case options of
        None \<Rightarrow> (if truthy v then sp_set searchParams key v else sp_delete searchParams key)
      | Some opts \<Rightarrow>
          (case schema opts of
             None \<Rightarrow> updateQueryState_rest key v searchParams opts
           | Some safeParse \<Rightarrow>
               (case safeParse v of
                  Some data \<Rightarrow> sp_set searchParams key data
                | None \<Rightarrow>
                    (if shouldFallback opts then sp_set searchParams key (to_usv (defaultValue opts))
                     else if shouldRemove opts then sp_delete searchParams key
                     else updateQueryState_rest key v searchParams opts))))"

subsection \<open>Params Builder (\<open>createSearchParams\<close>, \<open>createSearchParamsWithMany\<close>)\<close>

text \<open>
  Both builders copy the snapshot with \<open>new URLSearchParams(searchParams)\<close> and update
  the copy. On values the copy is the list itself. In \<open>createSearchParamsWithMany\<close> the
  configuration of a key is \<open>options?.[key]\<close>: the per-key options are a partial map, the
  empty map when \<open>options\<close> is \<open>undefined\<close>.
\<close>

fun updates_loop ::
  "(string \<times> string) list \<Rightarrow> URLSearchParams \<Rightarrow> (string \<rightharpoonup> UseQueryStateOptions) \<Rightarrow> URLSearchParams" where
  "updates_loop [] urlSearchParams options = urlSearchParams"
| "updates_loop ((key, v) # updates) urlSearchParams options =
     updates_loop updates (updateQueryState key v urlSearchParams (options key)) options"

definition createSearchParamsWithMany ::
  "(string \<times> string) list \<Rightarrow> URLSearchParams \<Rightarrow> (string \<rightharpoonup> UseQueryStateOptions) \<Rightarrow> URLSearchParams" where
  "createSearchParamsWithMany updates searchParams options = updates_loop updates searchParams options"

definition createSearchParams ::
  "string \<times> string \<Rightarrow> URLSearchParams \<Rightarrow> UseQueryStateOptions option \<Rightarrow> URLSearchParams" where
  "createSearchParams update searchParams options =
     (case update of (key, v) \<Rightarrow> updateQueryState key v searchParams options)"







subsection \<open>The hooks\<close>

text \<open>
  What a hook instance owns is its \<open>isMounted\<close> ref; what it does to the outside is call
  \<open>router.replace\<close>. The state of the model is the ref and the list of \<open>replace\<close> calls
  made so far, each recorded as the path name and the \<open>URLSearchParams\<close> whose text
  form follows the question mark.
\<close>

record hook_state =
  isMounted :: bool
  replaced :: "(string \<times> URLSearchParams) list"

definition router_replace :: "string \<Rightarrow> URLSearchParams \<Rightarrow> hook_state \<Rightarrow> hook_state" where
  "router_replace pathname q st = st\<lparr>replaced := replaced st @ [(pathname, q)]\<rparr>"

subsubsection \<open>\<open>useQueryString\<close>\<close>

definition setQueryString ::
  "string \<Rightarrow> UseQueryStateOptions option \<Rightarrow> string \<Rightarrow> URLSearchParams \<Rightarrow> string \<Rightarrow> hook_state \<Rightarrow> hook_state" where
  "setQueryString key options pathname searchParams v st =
     router_replace pathname (createSearchParams (key, v) searchParams options) st"

text \<open>The body of the effect of \<open>useQueryString\<close> (lines 99 to 127).\<close>

definition useQueryString_effect ::
  "string \<Rightarrow> UseQueryStateOptions option \<Rightarrow> string \<Rightarrow> URLSearchParams \<Rightarrow> hook_state \<Rightarrow> hook_state" where
  "useQueryString_effect key options pathname searchParams st =
     (let hasParam = sp_has searchParams key;
          paramValue = sp_get searchParams key;
          unconfigured =
            (if hasParam \<and> \<not> truthy_maybe paramValue
             then setQueryString key options pathname searchParams [] st
             else st)
      in case options of
           None \<Rightarrow> unconfigured
         | Some opts \<Rightarrow>
             if no_keys opts then unconfigured
             else if (\<not> isMounted st \<and> hasDefaultValue opts \<and> strict_neq paramValue (defaultValue opts))
                   \<or> (\<not> isMounted st \<and> \<not> hasDefaultValue opts \<and> hasSchema opts)
                   \<or> (hasParam \<and> \<not> truthy_maybe paramValue)
                   \<or> (\<not> hasParam \<and> hasDefaultValue opts)
             then setQueryString key options pathname searchParams (nullish_or paramValue [])
                    (st\<lparr>isMounted := True\<rparr>)
             else st)"

subsubsection \<open>\<open>useQueryStrings\<close>\<close>

definition updateSearchParams ::
  "(string \<rightharpoonup> UseQueryStateOptions) \<Rightarrow> string \<Rightarrow> URLSearchParams \<Rightarrow> (string \<times> string) list \<Rightarrow> hook_state \<Rightarrow> hook_state" where
  "updateSearchParams options pathname searchParams updates st =
     (if length updates = 0 then st
      else router_replace pathname (createSearchParamsWithMany updates searchParams options) st)"

text \<open>
  One turn of the loop of \<open>getSearchParamsUpdates\<close>: the pairs it pushes for one key,
  none or one.
\<close>

definition paramUpdates_of ::
  "bool \<Rightarrow> (string \<rightharpoonup> UseQueryStateOptions) \<Rightarrow> URLSearchParams \<Rightarrow> string \<Rightarrow> (string \<times> string) list" where
  "paramUpdates_of mounted options searchParams key =
     (let hasParam = sp_has searchParams key;
          paramValue = sp_get searchParams key;
          unconfigured = (if hasParam \<and> \<not> truthy_maybe paramValue then [(key, [])] else [])
      in case options key of
           None \<Rightarrow> unconfigured
         | Some paramOptions \<Rightarrow>
             if no_keys paramOptions then unconfigured
             else if (\<not> mounted \<and> hasDefaultValue paramOptions
                        \<and> strict_neq paramValue (defaultValue paramOptions))
                   \<or> (\<not> mounted \<and> \<not> hasDefaultValue paramOptions \<and> hasSchema paramOptions)
                   \<or> (hasParam \<and> \<not> truthy_maybe paramValue)
                   \<or> (\<not> hasParam \<and> hasDefaultValue paramOptions)
             then [(key, nullish_or paramValue [])]
             else [])"

fun getSearchParamsUpdates ::
  "bool \<Rightarrow> string list \<Rightarrow> (string \<rightharpoonup> UseQueryStateOptions) \<Rightarrow> URLSearchParams \<Rightarrow> (string \<times> string) list" where
  "getSearchParamsUpdates mounted [] options searchParams = []"
| "getSearchParamsUpdates mounted (key # keys) options searchParams =
     paramUpdates_of mounted options searchParams key
       @ getSearchParamsUpdates mounted keys options searchParams"

text \<open>The body of the effect of \<open>useQueryStrings\<close> (lines 215 to 225).\<close>

definition useQueryStrings_effect ::
  "string list \<Rightarrow> (string \<rightharpoonup> UseQueryStateOptions) \<Rightarrow> string \<Rightarrow> URLSearchParams \<Rightarrow> hook_state \<Rightarrow> hook_state" where
  "useQueryStrings_effect keys options pathname searchParams st =
     (let updates = getSearchParamsUpdates (isMounted st) keys options searchParams;
          st1 = st\<lparr>isMounted := True\<rparr>
      in if length updates > 0 then updateSearchParams options pathname searchParams updates st1
         else st1)"

subsection \<open>Schemas used in the concrete instances\<close>

text \<open>
  A schema given by a finite table: it accepts the raw strings listed and returns the
  string listed beside each (an enumeration followed by a transform, in the words of the
  validation library), and rejects every other string. The empty table rejects
  everything; a table that pairs each string with itself is a plain enumeration.
\<close>

definition zod_table :: "(string \<times> string) list \<Rightarrow> string \<Rightarrow> string option" where
  "zod_table table raw = map_of table raw"

section \<open>Properties\<close>

subsection \<open>The snapshot operations\<close>

lemma sp_get_delete_same: "sp_get (sp_delete ps key) key = None"
  by (induction ps key rule: sp_delete.induct) auto

lemma sp_get_delete_other: "k \<noteq> key \<Longrightarrow> sp_get (sp_delete ps key) k = sp_get ps k"
  by (induction ps key rule: sp_delete.induct) auto

lemma sp_get_set_same: "sp_get (sp_set ps key v) key = Some v"
  by (induction ps key v rule: sp_set.induct) auto

lemma sp_get_set_other: "k \<noteq> key \<Longrightarrow> sp_get (sp_set ps key v) k = sp_get ps k"
  by (induction ps key v rule: sp_set.induct) (auto simp: sp_get_delete_other)

lemma sp_has_get: "sp_has ps key = (sp_get ps key \<noteq> None)"
  by (induction ps key rule: sp_get.induct) auto

subsection \<open>The update policy and the builders\<close>

lemma fallback_or_remove: "shouldFallback opts \<or> shouldRemove opts"
  by (cases "onParseError_of opts") (auto simp: shouldFallback_def shouldRemove_def)

lemma updateQueryState_rest_cases:
  "updateQueryState_rest key v sp opts =
     (if truthy v then sp_set sp key v
      else if shouldFallback opts then sp_set sp key (to_usv (defaultValue opts))
      else sp_delete sp key)"
  using fallback_or_remove [of opts] by (auto simp: updateQueryState_rest_def)

lemma updateQueryState_cases:
  "(\<exists>x. updateQueryState key v sp options = sp_set sp key x)
     \<or> updateQueryState key v sp options = sp_delete sp key"
  using fallback_or_remove 
  by (auto simp: updateQueryState_def updateQueryState_rest_cases split: option.splits)

lemma sp_get_updateQueryState_other:
  "k \<noteq> key \<Longrightarrow> sp_get (updateQueryState key v sp options) k = sp_get sp k"
  using updateQueryState_cases [of key v sp options]
  by (auto simp: sp_get_set_other sp_get_delete_other)

lemma sp_get_updateQueryState_same:
  "sp_get (updateQueryState key v sp options) key = sp_get (updateQueryState key v sp' options) key"
  by (auto simp: updateQueryState_def updateQueryState_rest_cases sp_get_set_same sp_get_delete_same split: option.splits)

lemma sp_get_updates_loop_other:
  "k \<notin> fst ` set updates \<Longrightarrow> sp_get (updates_loop updates sp options) k = sp_get sp k"
  by (induction updates sp options rule: updates_loop.induct)
     (auto simp: sp_get_updateQueryState_other)

lemma updates_loop_append:
  "updates_loop (us @ vs) sp options = updates_loop vs (updates_loop us sp options) options"
  by (induction us sp options rule: updates_loop.induct) auto

lemma sp_get_updates_loop_last:
  assumes "k \<notin> fst ` set later"
  shows "sp_get (updates_loop (earlier @ (k, v) # later) sp options) k
           = sp_get (updateQueryState k v sp (options k)) k"
proof -
  have "sp_get (updates_loop (earlier @ (k, v) # later) sp options) k
          = sp_get (updateQueryState k v (updates_loop earlier sp options) (options k)) k"
    using assms by (simp add: updates_loop_append sp_get_updates_loop_other)
  then show ?thesis
    using sp_get_updateQueryState_same [of k v "updates_loop earlier sp options" "options k" sp]
    by simp
qed

text \<open>Every pair with the key carries the same value: the result is that of any of them.\<close>

lemma sp_get_updates_loop_uniform:
  assumes "(k, v) \<in> set updates" and "\<forall>w. (k, w) \<in> set updates \<longrightarrow> w = v"
  shows "sp_get (updates_loop updates sp options) k = sp_get (updateQueryState k v sp (options k)) k"
proof -
  from assms(1) have "\<exists>u \<in> set updates. fst u = k" by force
  then obtain earlier u later
    where split: "updates = earlier @ u # later" and u: "fst u = k"
      and later: "\<forall>z \<in> set later. fst z \<noteq> k"
    by (rule split_list_last_propE)
  from u obtain w where uw: "u = (k, w)" by (cases u) auto
  with split have "(k, w) \<in> set updates" by simp
  with assms(2) have "w = v" by blast
  moreover from later have "k \<notin> fst ` set later" by auto
  ultimately show ?thesis
    unfolding split uw by (simp add: sp_get_updates_loop_last)
qed

lemma set_getSearchParamsUpdates:
  "set (getSearchParamsUpdates mounted keys options sp)
     = (\<Union>key \<in> set keys. set (paramUpdates_of mounted options sp key))"
  by (induction keys) auto

lemma paramUpdates_of_cases:
  "paramUpdates_of mounted options sp key = []
     \<or> paramUpdates_of mounted options sp key = [(key, nullish_or (sp_get sp key) [])]"
proof (cases "options key")
  case None
  then show ?thesis
    by (simp add: paramUpdates_of_def Let_def truthy_maybe_def truthy_def nullish_or_def
          split: option.splits)
next
  case (Some po)
  show ?thesis
  proof (cases "no_keys po")
    case True
    with Some show ?thesis
      by (simp add: paramUpdates_of_def Let_def truthy_maybe_def truthy_def nullish_or_def
            split: option.splits)
  next
    case False
    with Some show ?thesis
      by (simp add: paramUpdates_of_def Let_def)
  qed
qed

lemma paramUpdates_of_value:
  "(k, v) \<in> set (paramUpdates_of mounted options sp key) \<Longrightarrow> k = key \<and> v = nullish_or (sp_get sp key) []"
  using paramUpdates_of_cases [of mounted options sp key] by auto

lemma getSearchParamsUpdates_value:
  "(k, v) \<in> set (getSearchParamsUpdates mounted keys options sp)
     \<Longrightarrow> k \<in> set keys \<and> v = nullish_or (sp_get sp k) []"
  by (auto simp: set_getSearchParamsUpdates dest: paramUpdates_of_value)

lemma sp_get_corrected:
  assumes "(k, v) \<in> set (getSearchParamsUpdates mounted keys options sp)"
  shows "sp_get (createSearchParamsWithMany (getSearchParamsUpdates mounted keys options sp) sp options) k
           = sp_get (updateQueryState k v sp (options k)) k"
  unfolding createSearchParamsWithMany_def
proof (rule sp_get_updates_loop_uniform [OF assms])
  show "\<forall>w. (k, w) \<in> set (getSearchParamsUpdates mounted keys options sp) \<longrightarrow> w = v"
    using assms by (auto dest!: getSearchParamsUpdates_value)
qed

lemma sp_get_uncorrected:
  assumes "paramUpdates_of mounted options sp k = []"
  shows "sp_get (createSearchParamsWithMany (getSearchParamsUpdates mounted keys options sp) sp options) k
           = sp_get sp k"
  unfolding createSearchParamsWithMany_def
proof (rule sp_get_updates_loop_other)
  show "k \<notin> fst ` set (getSearchParamsUpdates mounted keys options sp)"
  proof
    assume "k \<in> fst ` set (getSearchParamsUpdates mounted keys options sp)"
    then obtain v where "(k, v) \<in> set (getSearchParamsUpdates mounted keys options sp)" by auto
    then obtain key where "(k, v) \<in> set (paramUpdates_of mounted options sp key)"
      by (auto simp: set_getSearchParamsUpdates)
    moreover from this have "k = key" by (auto dest: paramUpdates_of_value)
    ultimately show False using assms by simp
  qed
qed

section \<open>The claims\<close>

subsection \<open>A schema that accepts\<close>

text \<open>
  C4. When the key has a schema and the schema accepts the candidate value \<open>v\<close> with
  the string \<open>V\<close>, \<open>updateQueryState\<close> sets the entry to \<open>V\<close>, whatever the raw
  value, the default value and the error policy are, and also when \<open>v\<close> is empty.
\<close>

theorem schema_success_sets_parsed:
  assumes "schema opts = Some S" and "S v = Some V"
  shows "updateQueryState key v sp (Some opts) = sp_set sp key V
       \<and> sp_get (updateQueryState key v sp (Some opts)) key = Some V"
  using assms by (simp add: updateQueryState_def sp_get_set_same)

theorem schema_success_sets_parsed_witness:
  "schema \<lparr>defaultValue = Some ''1'', schema = Some (zod_table [([], ''0''), (''07'', ''7'')]),
            onParseError = Some Remove\<rparr> = Some (zod_table [([], ''0''), (''07'', ''7'')])
   \<and> zod_table [([], ''0''), (''07'', ''7'')] ''07'' = Some ''7''
   \<and> updateQueryState ''n'' ''07'' [(''n'', ''07'')]
         (Some \<lparr>defaultValue = Some ''1'', schema = Some (zod_table [([], ''0''), (''07'', ''7'')]),
                 onParseError = Some Remove\<rparr>) = [(''n'', ''7'')]"
proof -
  let ?S = "zod_table [([], ''0''), (''07'', ''7'')]"
  let ?opts = "\<lparr>defaultValue = Some ''1'', schema = Some ?S, onParseError = Some Remove\<rparr>"
  have h1: "schema ?opts = Some ?S" by simp
  have h2: "?S ''07'' = Some ''7''" by (simp add: zod_table_def)
  show ?thesis
    using h1 h2 schema_success_sets_parsed [OF h1 h2, of "''n''" "[(''n'', ''07'')]"] by simp
qed

subsection \<open>The update policy is total\<close>

text \<open>
  C9. \<open>updateQueryState\<close> always resolves to an action: for every configuration and
  every candidate value the entry is set or the entry is deleted (the last branch, which
  would leave the snapshot as it is, is not reached: \<open>updateQueryState_rest_cases\<close>).
  \<open>shouldFallback\<close> and \<open>shouldRemove\<close> are never both false, so a schema failure
  is settled inside the schema block, by the default value or by deletion, and does not
  fall through.
\<close>

theorem updateQueryState_total:
  "(shouldFallback opts \<or> shouldRemove opts)
   \<and> ((\<exists>x. updateQueryState key v sp options = sp_set sp key x)
        \<or> updateQueryState key v sp options = sp_delete sp key)
   \<and> (schema opts = Some S \<and> S v = None \<longrightarrow>
        updateQueryState key v sp (Some opts) =
          (if shouldFallback opts then sp_set sp key (to_usv (defaultValue opts))
           else sp_delete sp key))"
  using fallback_or_remove [of opts] updateQueryState_cases [of key v sp options]
  by (auto simp: updateQueryState_def)

theorem updateQueryState_total_witness:
  "schema \<lparr>defaultValue = None, schema = Some (zod_table [(''7'', ''7'')]), onParseError = None\<rparr>
     = Some (zod_table [(''7'', ''7'')])
   \<and> zod_table [(''7'', ''7'')] ''abc'' = None
   \<and> updateQueryState ''n'' ''abc'' [(''n'', ''7'')]
         (Some \<lparr>defaultValue = None, schema = Some (zod_table [(''7'', ''7'')]), onParseError = None\<rparr>)
       = []"
proof -
  let ?S = "zod_table [(''7'', ''7'')]"
  let ?opts = "\<lparr>defaultValue = None, schema = Some ?S, onParseError = None\<rparr>"
  have h1: "schema ?opts = Some ?S" by simp
  have h2: "?S ''abc'' = None" by (simp add: zod_table_def)
  have "\<not> shouldFallback ?opts" by (simp add: shouldFallback_def truthy_maybe_def)
  then show ?thesis
    using h1 h2 updateQueryState_total [of ?opts "''n''" "''abc''" "[(''n'', ''7'')]" "Some ?opts" ?S]
    by simp
qed

subsection \<open>One \<open>replace\<close> call for all corrections\<close>

text \<open>
  C5. In \<open>useQueryStrings\<close>, when the pass finds two or more corrections, the effect
  calls \<open>router.replace\<close> exactly once, with the snapshot that
  \<open>createSearchParamsWithMany\<close> builds from all the corrections, and in that snapshot
  every corrected key has the entry the update policy gives it.
\<close>

theorem one_replace_for_all_corrections:
  assumes "2 \<le> length (getSearchParamsUpdates (isMounted st) keys options sp)"
  shows "\<exists>q. replaced (useQueryStrings_effect keys options pathname sp st) = replaced st @ [(pathname, q)]
           \<and> q = createSearchParamsWithMany (getSearchParamsUpdates (isMounted st) keys options sp) sp options
           \<and> (\<forall>(k, v) \<in> set (getSearchParamsUpdates (isMounted st) keys options sp).
                 sp_get q k = sp_get (updateQueryState k v sp (options k)) k)"
proof -
  let ?U = "getSearchParamsUpdates (isMounted st) keys options sp"
  let ?q = "createSearchParamsWithMany ?U sp options"
  from assms have "0 < length ?U" by (cases ?U) simp_all
  then have "replaced (useQueryStrings_effect keys options pathname sp st) = replaced st @ [(pathname, ?q)]"
    by (simp add: useQueryStrings_effect_def Let_def updateSearchParams_def router_replace_def)
  moreover have "\<forall>(k, v) \<in> set ?U. sp_get ?q k = sp_get (updateQueryState k v sp (options k)) k"
    using sp_get_corrected by blast
  ultimately show ?thesis by blast
qed

theorem one_replace_for_all_corrections_witness:
  "2 \<le> length (getSearchParamsUpdates (isMounted \<lparr>isMounted = False, replaced = []\<rparr>)
            [''page'', ''sort'']
            [''page'' \<mapsto> \<lparr>defaultValue = Some ''1'', schema = None, onParseError = None\<rparr>]
            [(''sort'', [])])
   \<and> replaced (useQueryStrings_effect [''page'', ''sort'']
         [''page'' \<mapsto> \<lparr>defaultValue = Some ''1'', schema = None, onParseError = None\<rparr>]
         ''/items'' [(''sort'', [])] \<lparr>isMounted = False, replaced = []\<rparr>)
       = [(''/items'', [(''page'', ''1'')])]"
proof -
  let ?st = "\<lparr>isMounted = False, replaced = []\<rparr>"
  let ?opts = "[''page'' \<mapsto> \<lparr>defaultValue = Some ''1'', schema = None, onParseError = None\<rparr>]"
  have U: "getSearchParamsUpdates (isMounted ?st) [''page'', ''sort''] ?opts [(''sort'', [])]
             = [(''page'', []), (''sort'', [])]"
    by (simp add: paramUpdates_of_def no_keys_def hasDefaultValue_def hasSchema_def
          truthy_maybe_def truthy_def strict_neq_def nullish_or_def)
  have h: "2 \<le> length (getSearchParamsUpdates (isMounted ?st) [''page'', ''sort''] ?opts [(''sort'', [])])"
    unfolding U by simp
  have q: "createSearchParamsWithMany [(''page'', []), (''sort'', [])] [(''sort'', [])] ?opts
             = [(''page'', ''1'')]"
    by (simp add: createSearchParamsWithMany_def updateQueryState_def updateQueryState_rest_def
          shouldFallback_def shouldRemove_def onParseError_of_def truthy_maybe_def truthy_def
          to_usv_def)
  from one_replace_for_all_corrections [OF h, of "''/items''"]
  have "replaced (useQueryStrings_effect [''page'', ''sort''] ?opts ''/items'' [(''sort'', [])] ?st)
          = [(''/items'', [(''page'', ''1'')])]"
    unfolding U q by simp
  with h show ?thesis by simp
qed

subsection \<open>Keys without configuration\<close>

lemma paramUpdates_of_unconfigured:
  "options key = None \<Longrightarrow>
     paramUpdates_of mounted options sp key = (if sp_get sp key = Some [] then [(key, [])] else [])"
  by (cases "sp_get sp key")
     (simp_all add: paramUpdates_of_def Let_def sp_has_get truthy_maybe_def truthy_def)

lemma in_getSearchParamsUpdates_iff:
  "(k, x) \<in> set (getSearchParamsUpdates mounted keys options sp)
     \<longleftrightarrow> k \<in> set keys \<and> (k, x) \<in> set (paramUpdates_of mounted options sp k)"
  using paramUpdates_of_value by (fastforce simp: set_getSearchParamsUpdates)

lemma updateQueryState_unconfigured:
  "updateQueryState key v sp None = (if v \<noteq> [] then sp_set sp key v else sp_delete sp key)"
  by (simp add: updateQueryState_def truthy_def)





subsection \<open>An empty default value\<close>














subsection \<open>A schema that rejects\<close>

text \<open>
  C2, as amended. When the schema rejects the candidate value, \<open>updateQueryState\<close>
  sets the entry to \<open>defaultValue\<close> when \<open>onParseError\<close> resolves to \<open>"fallback"\<close>
  and a non-empty \<open>defaultValue\<close> is configured, and deletes the entry when
  \<open>onParseError\<close> is \<open>"remove"\<close> or the \<open>defaultValue\<close> is absent or empty. The
  function is total: nothing is raised.
\<close>

theorem schema_failure_resolves:
  assumes "schema opts = Some S" and "S v = None"
  shows "(onParseError_of opts = Fallback \<and> defaultValue opts = Some d \<and> d \<noteq> [] \<longrightarrow>
            updateQueryState key v sp (Some opts) = sp_set sp key d
            \<and> sp_get (updateQueryState key v sp (Some opts)) key = Some d)
       \<and> (onParseError_of opts = Remove \<or> defaultValue opts = None \<or> defaultValue opts = Some [] \<longrightarrow>
            updateQueryState key v sp (Some opts) = sp_delete sp key
            \<and> sp_get (updateQueryState key v sp (Some opts)) key = None)"
proof -
  have "onParseError_of opts = Fallback \<and> defaultValue opts = Some d \<and> d \<noteq> [] \<longrightarrow>
          updateQueryState key v sp (Some opts) = sp_set sp key d"
    using assms
    by (simp add: updateQueryState_def shouldFallback_def truthy_maybe_def truthy_def to_usv_def)
  moreover have "onParseError_of opts = Remove \<or> defaultValue opts = None \<or> defaultValue opts = Some [] \<longrightarrow>
          updateQueryState key v sp (Some opts) = sp_delete sp key"
    using assms
    by (auto simp: updateQueryState_def shouldFallback_def shouldRemove_def truthy_maybe_def truthy_def)
  ultimately show ?thesis
    by (simp add: sp_get_set_same sp_get_delete_same)
qed

theorem schema_failure_resolves_witness:
  "schema \<lparr>defaultValue = Some ''active'', schema = Some (zod_table [(''active'', ''active'')]),
            onParseError = None\<rparr> = Some (zod_table [(''active'', ''active'')])
   \<and> zod_table [(''active'', ''active'')] ''bogus'' = None
   \<and> updateQueryState ''status'' ''bogus'' [(''status'', ''bogus'')]
        (Some \<lparr>defaultValue = Some ''active'', schema = Some (zod_table [(''active'', ''active'')]),
                onParseError = None\<rparr>) = [(''status'', ''active'')]
   \<and> schema \<lparr>defaultValue = Some ''active'', schema = Some (zod_table [(''active'', ''active'')]),
            onParseError = Some Remove\<rparr> = Some (zod_table [(''active'', ''active'')])
   \<and> updateQueryState ''status'' ''bogus'' [(''status'', ''bogus'')]
        (Some \<lparr>defaultValue = Some ''active'', schema = Some (zod_table [(''active'', ''active'')]),
                onParseError = Some Remove\<rparr>) = []"
proof -
  let ?S = "zod_table [(''active'', ''active'')]"
  let ?f = "\<lparr>defaultValue = Some ''active'', schema = Some ?S, onParseError = None\<rparr>"
  let ?r = "\<lparr>defaultValue = Some ''active'', schema = Some ?S, onParseError = Some Remove\<rparr>"
  have f1: "schema ?f = Some ?S" and r1: "schema ?r = Some ?S" by simp_all
  have h2: "?S ''bogus'' = None" by (simp add: zod_table_def)
  have f3: "onParseError_of ?f = Fallback \<and> defaultValue ?f = Some ''active'' \<and> ''active'' \<noteq> []"
    by (simp add: onParseError_of_def)
  have r3: "onParseError_of ?r = Remove" by (simp add: onParseError_of_def)
  have "updateQueryState ''status'' ''bogus'' [(''status'', ''bogus'')] (Some ?f)
          = sp_set [(''status'', ''bogus'')] ''status'' ''active''"
    using schema_failure_resolves [OF f1 h2, of "''active''" "''status''" "[(''status'', ''bogus'')]"] f3
    by blast
  moreover have "updateQueryState ''status'' ''bogus'' [(''status'', ''bogus'')] (Some ?r)
          = sp_delete [(''status'', ''bogus'')] ''status''"
    using schema_failure_resolves [OF r1 h2, of "''active''" "''status''" "[(''status'', ''bogus'')]"] r3
    by blast
  ultimately show ?thesis using f1 r1 h2 by simp
qed

text \<open>
  C2 as stated fails for a configured \<open>defaultValue\<close> that is the empty string: with
  \<open>onParseError\<close> \<open>"fallback"\<close> and a rejecting schema the entry is deleted, where
  setting it to the default would leave the key present with an empty value.
\<close>

theorem schema_failure_empty_default_counterexample:
  "zod_table [] ''x'' = None
   \<and> onParseError_of \<lparr>defaultValue = Some [], schema = Some (zod_table []), onParseError = Some Fallback\<rparr>
       = Fallback
   \<and> updateQueryState ''q'' ''x'' [(''q'', ''x'')]
        (Some \<lparr>defaultValue = Some [], schema = Some (zod_table []), onParseError = Some Fallback\<rparr>)
       = []
   \<and> sp_set [(''q'', ''x'')] ''q'' [] = [(''q'', [])]"
  by (simp add: zod_table_def onParseError_of_def updateQueryState_def shouldFallback_def
        shouldRemove_def truthy_maybe_def truthy_def)

subsection \<open>The mount state after a pass\<close>

text \<open>The effect of \<open>useQueryStrings\<close> always leaves \<open>isMounted\<close> true.\<close>

lemma useQueryStrings_effect_mounts:
  "isMounted (useQueryStrings_effect keys options pathname sp st)"
  by (simp add: useQueryStrings_effect_def Let_def updateSearchParams_def router_replace_def)

text \<open>
  The effect of \<open>useQueryString\<close> sets \<open>isMounted\<close> only together with a
  \<open>replace\<close> call, and only when options with at least one property are given.
\<close>

lemma useQueryString_effect_mounts_on_correction_only:
  "isMounted (useQueryString_effect key options pathname sp st)
     = (isMounted st
        \<or> (\<exists>opts. options = Some opts \<and> \<not> no_keys opts)
          \<and> replaced (useQueryString_effect key options pathname sp st) \<noteq> replaced st)"
proof (cases options)
  case None
  then show ?thesis
    by (simp add: useQueryString_effect_def Let_def setQueryString_def router_replace_def)
next
  case (Some opts)
  show ?thesis
  proof (cases "no_keys opts")
    case True
    with Some show ?thesis
      by (simp add: useQueryString_effect_def Let_def setQueryString_def router_replace_def)
  next
    case False
    with Some show ?thesis
      by (simp add: useQueryString_effect_def Let_def setQueryString_def router_replace_def)
  qed
qed

text \<open>
  C1. The claim holds for \<open>useQueryStrings\<close> and fails for \<open>useQueryString\<close>, which
  sets \<open>isMounted\<close> only inside the branch that issues a correction: with
  \<open>defaultValue\<close> \<open>10\<close> and the snapshot \<open>page=10\<close>, or without options, a first
  pass leaves \<open>isMounted\<close> false, while \<open>useQueryStrings\<close> on the same input sets it.
\<close>

theorem useQueryString_effect_stays_unmounted:
  "\<not> isMounted (useQueryString_effect ''page''
        (Some \<lparr>defaultValue = Some ''10'', schema = None, onParseError = None\<rparr>)
        ''/items'' [(''page'', ''10'')] \<lparr>isMounted = False, replaced = []\<rparr>)
   \<and> \<not> isMounted (useQueryString_effect ''page'' None
        ''/items'' [(''page'', ''10'')] \<lparr>isMounted = False, replaced = []\<rparr>)
   \<and> isMounted (useQueryStrings_effect [''page'']
        [''page'' \<mapsto> \<lparr>defaultValue = Some ''10'', schema = None, onParseError = None\<rparr>]
        ''/items'' [(''page'', ''10'')] \<lparr>isMounted = False, replaced = []\<rparr>)"
  by (simp add: useQueryString_effect_def Let_def no_keys_def hasDefaultValue_def hasSchema_def
        truthy_maybe_def truthy_def strict_neq_def useQueryStrings_effect_mounts)

subsection \<open>The builders copy before they write\<close>







subsection \<open>Materializing the default\<close>

lemma updateQueryState_materializes:
  assumes "defaultValue opts = Some D" and "D \<noteq> []" and "onParseError_of opts = Fallback"
    and "schema opts = None \<or> (\<exists>S. schema opts = Some S \<and> S [] = None)"
  shows "updateQueryState key [] sp (Some opts) = sp_set sp key D"
proof -
  have f: "shouldFallback opts"
    using assms(1-3) by (simp add: shouldFallback_def truthy_maybe_def truthy_def)
  from assms(4) show ?thesis
  proof
    assume "schema opts = None"
    with f assms(1) show ?thesis
      by (simp add: updateQueryState_def updateQueryState_rest_def truthy_def to_usv_def)
  next
    assume "\<exists>S. schema opts = Some S \<and> S [] = None"
    then obtain S where "schema opts = Some S" and "S [] = None" by blast
    with f assms(1) show ?thesis
      by (simp add: updateQueryState_def to_usv_def)
  qed
qed

lemma paramUpdates_of_missing_with_default:
  assumes "options key = Some opts" and "defaultValue opts = Some D" and "D \<noteq> []"
    and "sp_get sp key = None \<or> sp_get sp key = Some []"
  shows "paramUpdates_of mounted options sp key = [(key, [])]"
proof -
  have a: "\<not> no_keys opts" using assms(2) by (simp add: no_keys_def)
  have b: "hasDefaultValue opts"
    using assms(2,3) by (simp add: hasDefaultValue_def truthy_maybe_def truthy_def)
  from assms(4) show ?thesis
  proof
    assume "sp_get sp key = None"
    with assms(1) a b show ?thesis
      by (simp add: paramUpdates_of_def Let_def sp_has_get nullish_or_def)
  next
    assume "sp_get sp key = Some []"
    with assms(1) a b show ?thesis
      by (simp add: paramUpdates_of_def Let_def sp_has_get nullish_or_def truthy_maybe_def truthy_def)
  qed
qed

lemma useQueryString_effect_missing_with_default:
  assumes "defaultValue opts = Some D" and "D \<noteq> []"
    and "sp_get sp key = None \<or> sp_get sp key = Some []"
  shows "replaced (useQueryString_effect key (Some opts) pathname sp st)
           = replaced st @ [(pathname, updateQueryState key [] sp (Some opts))]"
proof -
  have a: "\<not> no_keys opts" using assms(1) by (simp add: no_keys_def)
  have b: "hasDefaultValue opts"
    using assms(1,2) by (simp add: hasDefaultValue_def truthy_maybe_def truthy_def)
  from assms(3) show ?thesis
  proof
    assume "sp_get sp key = None"
    with a b show ?thesis
      by (simp add: useQueryString_effect_def Let_def sp_has_get nullish_or_def
            setQueryString_def router_replace_def createSearchParams_def)
  next
    assume "sp_get sp key = Some []"
    with a b show ?thesis
      by (simp add: useQueryString_effect_def Let_def sp_has_get nullish_or_def truthy_maybe_def
            truthy_def setQueryString_def router_replace_def createSearchParams_def)
  qed
qed

text \<open>
  Where the default is materialized. For a key configured with a non-empty
  \<open>defaultValue\<close> \<open>D\<close>, whose \<open>onParseError\<close> resolves to \<open>"fallback"\<close> and
  whose schema, if there is one, rejects the empty string, and that is absent or present
  and empty in the snapshot: a reconciliation pass emits the correction \<open>(key, "")\<close>,
  issues one \<open>replace\<close> call, and the snapshot it carries maps the key to \<open>D\<close>.
\<close>

lemma default_materialized_under_fallback:
  assumes "defaultValue opts = Some D" and "D \<noteq> []" and "onParseError_of opts = Fallback"
    and "schema opts = None \<or> (\<exists>S. schema opts = Some S \<and> S [] = None)"
    and "sp_get sp key = None \<or> sp_get sp key = Some []"
  shows "(key \<in> set keys \<and> options key = Some opts \<longrightarrow>
           (key, []) \<in> set (getSearchParamsUpdates mounted keys options sp)
           \<and> sp_get (createSearchParamsWithMany (getSearchParamsUpdates mounted keys options sp) sp options) key
               = Some D
           \<and> replaced (useQueryStrings_effect keys options pathname sp st)
               = replaced st @ [(pathname,
                   createSearchParamsWithMany (getSearchParamsUpdates (isMounted st) keys options sp) sp options)])
       \<and> replaced (useQueryString_effect key (Some opts) pathname sp st)
            = replaced st @ [(pathname, createSearchParams (key, []) sp (Some opts))]
       \<and> sp_get (createSearchParams (key, []) sp (Some opts)) key = Some D"
proof -
  have pol: "updateQueryState key [] sp (Some opts) = sp_set sp key D"
    using assms(1-4) by (rule updateQueryState_materializes)
  have single: "replaced (useQueryString_effect key (Some opts) pathname sp st)
            = replaced st @ [(pathname, createSearchParams (key, []) sp (Some opts))]"
    using useQueryString_effect_missing_with_default [OF assms(1,2,5)]
    by (simp add: createSearchParams_def)
  have single_get: "sp_get (createSearchParams (key, []) sp (Some opts)) key = Some D"
    by (simp add: createSearchParams_def pol sp_get_set_same)
  have multi: "(key, []) \<in> set (getSearchParamsUpdates mounted keys options sp)
           \<and> sp_get (createSearchParamsWithMany (getSearchParamsUpdates mounted keys options sp) sp options) key
               = Some D
           \<and> replaced (useQueryStrings_effect keys options pathname sp st)
               = replaced st @ [(pathname,
                   createSearchParamsWithMany (getSearchParamsUpdates (isMounted st) keys options sp) sp options)]"
    if k: "key \<in> set keys" and o: "options key = Some opts"
  proof -
    have em: "(key, []) \<in> set (getSearchParamsUpdates m keys options sp)" for m
      using k paramUpdates_of_missing_with_default
          [where options = options and key = key and mounted = m, OF o assms(1,2,5)]
      by (simp add: in_getSearchParamsUpdates_iff)
    have "sp_get (createSearchParamsWithMany (getSearchParamsUpdates mounted keys options sp) sp options) key
            = sp_get (updateQueryState key [] sp (options key)) key"
      using em by (rule sp_get_corrected)
    then have g: "sp_get (createSearchParamsWithMany (getSearchParamsUpdates mounted keys options sp) sp options) key
            = Some D"
      by (simp add: o pol sp_get_set_same)
    have "getSearchParamsUpdates (isMounted st) keys options sp \<noteq> []"
      using em [of "isMounted st"] by auto
    then have "replaced (useQueryStrings_effect keys options pathname sp st)
               = replaced st @ [(pathname,
                   createSearchParamsWithMany (getSearchParamsUpdates (isMounted st) keys options sp) sp options)]"
      by (simp add: useQueryStrings_effect_def Let_def updateSearchParams_def router_replace_def)
    with em g show ?thesis by blast
  qed
  from single single_get multi show ?thesis by blast
qed

lemma default_materialized_under_fallback_example:
  "defaultValue \<lparr>defaultValue = Some ''10'', schema = None, onParseError = None\<rparr> = Some ''10''
   \<and> ''10'' \<noteq> []
   \<and> onParseError_of \<lparr>defaultValue = Some ''10'', schema = None, onParseError = None\<rparr> = Fallback
   \<and> schema \<lparr>defaultValue = Some ''10'', schema = None, onParseError = None\<rparr> = None
   \<and> sp_get [(''sort'', ''name'')] ''page'' = None
   \<and> ''page'' \<in> set [''page'', ''sort'']
   \<and> [''page'' \<mapsto> \<lparr>defaultValue = Some ''10'', schema = None, onParseError = None\<rparr>] ''page''
       = Some \<lparr>defaultValue = Some ''10'', schema = None, onParseError = None\<rparr>
   \<and> replaced (useQueryStrings_effect [''page'', ''sort'']
         [''page'' \<mapsto> \<lparr>defaultValue = Some ''10'', schema = None, onParseError = None\<rparr>]
         ''/items'' [(''sort'', ''name'')] \<lparr>isMounted = False, replaced = []\<rparr>)
       = [(''/items'', [(''sort'', ''name''), (''page'', ''10'')])]
   \<and> replaced (useQueryString_effect ''page''
         (Some \<lparr>defaultValue = Some ''10'', schema = None, onParseError = None\<rparr>)
         ''/items'' [(''sort'', ''name'')] \<lparr>isMounted = False, replaced = []\<rparr>)
       = [(''/items'', [(''sort'', ''name''), (''page'', ''10'')])]"
proof -
  let ?o = "\<lparr>defaultValue = Some ''10'', schema = None, onParseError = None\<rparr>"
  let ?opts = "[''page'' \<mapsto> ?o]"
  let ?sp = "[(''sort'', ''name'')]"
  let ?st = "\<lparr>isMounted = False, replaced = []\<rparr>"
  have h1: "defaultValue ?o = Some ''10''" by simp
  have h2: "''10'' \<noteq> []" by simp
  have h3: "onParseError_of ?o = Fallback" by (simp add: onParseError_of_def)
  have h4: "schema ?o = None \<or> (\<exists>S. schema ?o = Some S \<and> S [] = None)" by simp
  have h5: "sp_get ?sp ''page'' = None \<or> sp_get ?sp ''page'' = Some []" by simp
  have k: "''page'' \<in> set [''page'', ''sort''] \<and> ?opts ''page'' = Some ?o" by simp
  have U: "getSearchParamsUpdates False [''page'', ''sort''] ?opts ?sp = [(''page'', [])]"
    by (simp add: paramUpdates_of_def no_keys_def hasDefaultValue_def hasSchema_def
          truthy_maybe_def truthy_def strict_neq_def nullish_or_def)
  have q: "createSearchParamsWithMany [(''page'', [])] ?sp ?opts = [(''sort'', ''name''), (''page'', ''10'')]"
    by (simp add: createSearchParamsWithMany_def updateQueryState_def updateQueryState_rest_def
          shouldFallback_def onParseError_of_def truthy_maybe_def truthy_def to_usv_def)
  have q1: "createSearchParams (''page'', []) ?sp (Some ?o) = [(''sort'', ''name''), (''page'', ''10'')]"
    by (simp add: createSearchParams_def updateQueryState_def updateQueryState_rest_def
          shouldFallback_def onParseError_of_def truthy_maybe_def truthy_def to_usv_def)
  note t = default_materialized_under_fallback [OF h1 h2 h3 h4 h5, where keys = "[''page'', ''sort'']"
      and options = ?opts and pathname = "''/items''" and st = ?st and mounted = False]
  from t k have "replaced (useQueryStrings_effect [''page'', ''sort''] ?opts ''/items'' ?sp ?st)
       = replaced ?st @ [(''/items'',
           createSearchParamsWithMany (getSearchParamsUpdates (isMounted ?st) [''page'', ''sort''] ?opts ?sp) ?sp ?opts)]"
    by blast
  then have m: "replaced (useQueryStrings_effect [''page'', ''sort''] ?opts ''/items'' ?sp ?st)
       = [(''/items'', [(''sort'', ''name''), (''page'', ''10'')])]"
    by (simp add: U q del: getSearchParamsUpdates.simps)
  from t have "replaced (useQueryString_effect ''page'' (Some ?o) ''/items'' ?sp ?st)
       = replaced ?st @ [(''/items'', createSearchParams (''page'', []) ?sp (Some ?o))]"
    by blast
  then have s: "replaced (useQueryString_effect ''page'' (Some ?o) ''/items'' ?sp ?st)
       = [(''/items'', [(''sort'', ''name''), (''page'', ''10'')])]"
    by (simp add: q1)
  from h1 h2 h3 k m s show ?thesis by simp
qed

text \<open>
  C3. A key configured with \<open>defaultValue\<close> \<open>10\<close> and \<open>onParseError\<close>
  \<open>"remove"\<close>, with no schema, is absent from the snapshot. The first pass emits the
  correction \<open>(page, "")\<close> and calls \<open>replace\<close>, in both hooks, but
  \<open>updateQueryState\<close> deletes the key on the empty value instead of setting it to the
  default: the snapshot that \<open>replace\<close> carries has no entry for the key.
\<close>

theorem default_dropped_under_remove_policy:
  "getSearchParamsUpdates False [''page'']
      [''page'' \<mapsto> \<lparr>defaultValue = Some ''10'', schema = None, onParseError = Some Remove\<rparr>] []
     = [(''page'', [])]
   \<and> useQueryStrings_effect [''page'']
        [''page'' \<mapsto> \<lparr>defaultValue = Some ''10'', schema = None, onParseError = Some Remove\<rparr>]
        ''/items'' [] \<lparr>isMounted = False, replaced = []\<rparr>
     = \<lparr>isMounted = True, replaced = [(''/items'', [])]\<rparr>
   \<and> useQueryString_effect ''page''
        (Some \<lparr>defaultValue = Some ''10'', schema = None, onParseError = Some Remove\<rparr>)
        ''/items'' [] \<lparr>isMounted = False, replaced = []\<rparr>
     = \<lparr>isMounted = True, replaced = [(''/items'', [])]\<rparr>
   \<and> sp_get [] ''page'' = None"
  by (simp add: useQueryStrings_effect_def updateSearchParams_def createSearchParamsWithMany_def
        useQueryString_effect_def Let_def paramUpdates_of_def no_keys_def hasDefaultValue_def
        hasSchema_def truthy_maybe_def truthy_def strict_neq_def nullish_or_def setQueryString_def
        router_replace_def createSearchParams_def updateQueryState_def updateQueryState_rest_def
        shouldFallback_def shouldRemove_def onParseError_of_def)

subsection \<open>Reconciling twice\<close>

lemma getSearchParamsUpdates_empty_iff:
  "getSearchParamsUpdates mounted keys options sp = []
     \<longleftrightarrow> (\<forall>k \<in> set keys. paramUpdates_of mounted options sp k = [])"
  by (induction keys) auto

lemma no_keys_no_default: "no_keys opts \<Longrightarrow> \<not> hasDefaultValue opts"
  by (simp add: no_keys_def hasDefaultValue_def truthy_maybe_def split: option.splits)

lemma paramUpdates_of_mounted_empty_iff:
  "paramUpdates_of True options sp k = []
     \<longleftrightarrow> sp_get sp k \<noteq> Some []
         \<and> \<not> (sp_get sp k = None \<and> (\<exists>opts. options k = Some opts \<and> hasDefaultValue opts))"
proof (cases "options k")
  case None
  then show ?thesis by (simp add: paramUpdates_of_unconfigured)
next
  case (Some opts)
  show ?thesis
  proof (cases "no_keys opts")
    case True
    with Some no_keys_no_default [OF True] show ?thesis
      by (cases "sp_get sp k")
         (simp_all add: paramUpdates_of_def Let_def sp_has_get truthy_maybe_def truthy_def)
  next
    case False
    with Some show ?thesis
      by (cases "sp_get sp k")
         (simp_all add: paramUpdates_of_def Let_def sp_has_get truthy_maybe_def truthy_def)
  qed
qed

lemma paramUpdates_of_empty_mounted:
  assumes "paramUpdates_of mounted options sp k = []"
  shows "paramUpdates_of True options sp k = []"
proof (cases "options k")
  case None
  with assms show ?thesis by (simp add: paramUpdates_of_unconfigured)
next
  case (Some opts)
  show ?thesis
  proof (cases "no_keys opts")
    case True
    with Some assms show ?thesis by (simp add: paramUpdates_of_def Let_def)
  next
    case False
    with Some assms show ?thesis
      by (simp add: paramUpdates_of_def Let_def split: if_splits)
  qed
qed

lemma policy_outcome_unconfigured:
  "sp_get (updateQueryState k v sp None) k \<noteq> Some []"
  by (simp add: updateQueryState_unconfigured sp_get_set_same sp_get_delete_same)

lemma policy_outcome_configured:
  assumes "hasDefaultValue opts \<longrightarrow> onParseError_of opts = Fallback"
    and "\<forall>S v. schema opts = Some S \<longrightarrow> S v \<noteq> Some []"
  shows "sp_get (updateQueryState k v sp (Some opts)) k \<noteq> Some []
       \<and> (sp_get (updateQueryState k v sp (Some opts)) k = None \<longrightarrow> \<not> hasDefaultValue opts)"
proof -
  have fb: "shouldFallback opts \<Longrightarrow> \<exists>d. defaultValue opts = Some d \<and> d \<noteq> []"
    by (cases "defaultValue opts") (simp_all add: shouldFallback_def truthy_maybe_def truthy_def)
  have nfb: "\<not> shouldFallback opts \<Longrightarrow> \<not> hasDefaultValue opts"
    using assms(1) by (auto simp: shouldFallback_def hasDefaultValue_def)
  have dflt: "shouldFallback opts \<Longrightarrow>
        sp_get (sp_set sp k (to_usv (defaultValue opts))) k \<noteq> Some []"
    using fb by (auto simp: sp_get_set_same to_usv_def)
  have rest: "sp_get (updateQueryState_rest k v sp opts) k \<noteq> Some []
       \<and> (sp_get (updateQueryState_rest k v sp opts) k = None \<longrightarrow> \<not> hasDefaultValue opts)"
    using dflt nfb
    by (simp add: updateQueryState_rest_cases sp_get_set_same sp_get_delete_same truthy_def)
  show ?thesis
  proof (cases "schema opts")
    case None
    with rest show ?thesis by (simp add: updateQueryState_def)
  next
    case (Some S)
    show ?thesis
    proof (cases "S v")
      case (Some data)
      with \<open>schema opts = Some S\<close> assms(2) have "data \<noteq> []" by auto
      with Some \<open>schema opts = Some S\<close> show ?thesis
        by (simp add: updateQueryState_def sp_get_set_same)
    next
      case None
      with \<open>schema opts = Some S\<close> dflt nfb fallback_or_remove [of opts] show ?thesis
        by (auto simp: updateQueryState_def sp_get_set_same sp_get_delete_same)
    qed
  qed
qed

lemma paramUpdates_of_after_pass:
  assumes "k \<in> set keys"
    and "\<forall>opts. options k = Some opts \<longrightarrow>
             (hasDefaultValue opts \<longrightarrow> onParseError_of opts = Fallback)
             \<and> (\<forall>S v. schema opts = Some S \<longrightarrow> S v \<noteq> Some [])"
  shows "paramUpdates_of True options
           (createSearchParamsWithMany (getSearchParamsUpdates mounted keys options sp) sp options) k = []"
proof (cases "paramUpdates_of mounted options sp k = []")
  case True
  then have "sp_get (createSearchParamsWithMany (getSearchParamsUpdates mounted keys options sp) sp options) k
               = sp_get sp k"
    by (rule sp_get_uncorrected)
  moreover from True have "paramUpdates_of True options sp k = []"
    by (rule paramUpdates_of_empty_mounted)
  ultimately show ?thesis by (simp add: paramUpdates_of_mounted_empty_iff)
next
  case False
  let ?sp1 = "createSearchParamsWithMany (getSearchParamsUpdates mounted keys options sp) sp options"
  from False paramUpdates_of_cases [of mounted options sp k]
  obtain v where "(k, v) \<in> set (paramUpdates_of mounted options sp k)" by auto
  with assms(1) have v: "(k, v) \<in> set (getSearchParamsUpdates mounted keys options sp)"
    by (simp add: in_getSearchParamsUpdates_iff)
  then have g: "sp_get ?sp1 k = sp_get (updateQueryState k v sp (options k)) k"
    by (rule sp_get_corrected)
  show ?thesis
  proof (cases "options k")
    case None
    with g policy_outcome_unconfigured [of k v sp] show ?thesis
      by (simp add: paramUpdates_of_mounted_empty_iff)
  next
    case (Some opts)
    with assms(2) have "hasDefaultValue opts \<longrightarrow> onParseError_of opts = Fallback"
      and "\<forall>S v. schema opts = Some S \<longrightarrow> S v \<noteq> Some []" by blast+
    from policy_outcome_configured [OF this, of k v sp] g Some show ?thesis
      by (auto simp: paramUpdates_of_mounted_empty_iff)
  qed
qed

text \<open>
  Where reconciling settles. Suppose no tracked key combines a non-empty
  \<open>defaultValue\<close> with \<open>onParseError\<close> \<open>"remove"\<close>, and no schema of a tracked
  key returns the empty string. Then on the snapshot produced by one application of the
  reconciler and the Params Builder, the reconciler with \<open>isMounted\<close> set emits no
  corrections; a second application gives the same snapshot, and a second run of the
  effect of \<open>useQueryStrings\<close> changes nothing.
\<close>

lemma reconcile_fixed_point:
  assumes "\<forall>k \<in> set keys. \<forall>opts. options k = Some opts \<longrightarrow>
             (hasDefaultValue opts \<longrightarrow> onParseError_of opts = Fallback)
             \<and> (\<forall>S v. schema opts = Some S \<longrightarrow> S v \<noteq> Some [])"
  shows "getSearchParamsUpdates True keys options
           (createSearchParamsWithMany (getSearchParamsUpdates mounted keys options sp) sp options) = []
       \<and> createSearchParamsWithMany
           (getSearchParamsUpdates True keys options
              (createSearchParamsWithMany (getSearchParamsUpdates mounted keys options sp) sp options))
           (createSearchParamsWithMany (getSearchParamsUpdates mounted keys options sp) sp options)
           options
          = createSearchParamsWithMany (getSearchParamsUpdates mounted keys options sp) sp options
       \<and> useQueryStrings_effect keys options pathname
           (createSearchParamsWithMany (getSearchParamsUpdates (isMounted st) keys options sp) sp options)
           (useQueryStrings_effect keys options pathname sp st)
          = useQueryStrings_effect keys options pathname sp st"
proof -
  have fp: "getSearchParamsUpdates True keys options
           (createSearchParamsWithMany (getSearchParamsUpdates m keys options sp) sp options) = []" for m
    unfolding getSearchParamsUpdates_empty_iff
  proof
    fix k assume "k \<in> set keys"
    moreover from this assms have "\<forall>opts. options k = Some opts \<longrightarrow>
             (hasDefaultValue opts \<longrightarrow> onParseError_of opts = Fallback)
             \<and> (\<forall>S v. schema opts = Some S \<longrightarrow> S v \<noteq> Some [])" by blast
    ultimately show "paramUpdates_of True options
           (createSearchParamsWithMany (getSearchParamsUpdates m keys options sp) sp options) k = []"
      by (rule paramUpdates_of_after_pass)
  qed
  have m: "isMounted (useQueryStrings_effect keys options pathname sp st)"
    by (simp add: useQueryStrings_effect_def Let_def updateSearchParams_def router_replace_def)
  have "useQueryStrings_effect keys options pathname
           (createSearchParamsWithMany (getSearchParamsUpdates (isMounted st) keys options sp) sp options)
           (useQueryStrings_effect keys options pathname sp st)
          = useQueryStrings_effect keys options pathname sp st"
    using m fp [of "isMounted st"]
    by (simp add: useQueryStrings_effect_def [of keys options pathname
          "createSearchParamsWithMany (getSearchParamsUpdates (isMounted st) keys options sp) sp options"]
          Let_def)
  with fp [of mounted] show ?thesis
    by (simp add: createSearchParamsWithMany_def)
qed


lemma reconcile_fixed_point_example:
  "createSearchParamsWithMany
        (getSearchParamsUpdates False [''page'', ''sort'']
           [''page'' \<mapsto> \<lparr>defaultValue = Some ''1'',
                             schema = Some (zod_table [(''1'', ''1''), (''2'', ''2'')]),
                             onParseError = None\<rparr>]
           [(''page'', ''9''), (''sort'', [])])
        [(''page'', ''9''), (''sort'', [])]
        [''page'' \<mapsto> \<lparr>defaultValue = Some ''1'',
                          schema = Some (zod_table [(''1'', ''1''), (''2'', ''2'')]),
                          onParseError = None\<rparr>]
       = [(''page'', ''1'')]
   \<and> getSearchParamsUpdates True [''page'', ''sort'']
        [''page'' \<mapsto> \<lparr>defaultValue = Some ''1'',
                          schema = Some (zod_table [(''1'', ''1''), (''2'', ''2'')]),
                          onParseError = None\<rparr>]
        [(''page'', ''1'')] = []"
proof -
  let ?o = "\<lparr>defaultValue = Some ''1'', schema = Some (zod_table [(''1'', ''1''), (''2'', ''2'')]),
             onParseError = None\<rparr>"
  let ?opts = "[''page'' \<mapsto> ?o]"
  let ?sp = "[(''page'', ''9''), (''sort'', [])]"
  have h: "\<forall>k \<in> set [''page'', ''sort'']. \<forall>opts. ?opts k = Some opts \<longrightarrow>
        (hasDefaultValue opts \<longrightarrow> onParseError_of opts = Fallback)
        \<and> (\<forall>S v. schema opts = Some S \<longrightarrow> S v \<noteq> Some [])"
    by (auto simp: onParseError_of_def zod_table_def split: if_splits)
  have U: "getSearchParamsUpdates False [''page'', ''sort''] ?opts ?sp = [(''page'', ''9''), (''sort'', [])]"
    by (simp add: paramUpdates_of_def no_keys_def hasDefaultValue_def hasSchema_def
          truthy_maybe_def truthy_def strict_neq_def nullish_or_def)
  have q: "createSearchParamsWithMany [(''page'', ''9''), (''sort'', [])] ?sp ?opts = [(''page'', ''1'')]"
    by (simp add: createSearchParamsWithMany_def updateQueryState_def zod_table_def
          shouldFallback_def onParseError_of_def truthy_maybe_def truthy_def to_usv_def)
  have sp1: "createSearchParamsWithMany (getSearchParamsUpdates False [''page'', ''sort''] ?opts ?sp) ?sp ?opts
               = [(''page'', ''1'')]"
    unfolding U q by (rule refl)
  from reconcile_fixed_point [OF h, where mounted = False and sp = ?sp]
  have "getSearchParamsUpdates True [''page'', ''sort''] ?opts
          (createSearchParamsWithMany (getSearchParamsUpdates False [''page'', ''sort''] ?opts ?sp) ?sp ?opts)
          = []"
    by blast
  then have "getSearchParamsUpdates True [''page'', ''sort''] ?opts [(''page'', ''1'')] = []"
    unfolding sp1 .
  with sp1 show ?thesis by blast
qed

text \<open>
  C6. Reconciling does not settle. With \<open>defaultValue\<close> \<open>1\<close> and
  \<open>onParseError\<close> \<open>"remove"\<close>, an absent key stays absent after the first pass of
  \<open>useQueryStrings\<close>, the reconciler with \<open>isMounted\<close> set emits the correction
  again, and the second run of the effect calls \<open>replace\<close> a second time. With, in
  addition, a schema that rejects \<open>abc\<close> and turns the empty string into \<open>0\<close>, the
  snapshot \<open>page=abc\<close> becomes empty after the first application and \<open>page=0\<close>
  after the second. With a schema that accepts the empty string as it is, the first pass
  writes the key with an empty value and the second pass emits a correction for it.
\<close>

theorem reconcile_never_settles:
  "useQueryStrings_effect [''page'']
      [''page'' \<mapsto> \<lparr>defaultValue = Some ''1'', schema = None, onParseError = Some Remove\<rparr>]
      ''/items'' [] \<lparr>isMounted = False, replaced = []\<rparr>
     = \<lparr>isMounted = True, replaced = [(''/items'', [])]\<rparr>
   \<and> useQueryStrings_effect [''page'']
        [''page'' \<mapsto> \<lparr>defaultValue = Some ''1'', schema = None, onParseError = Some Remove\<rparr>]
        ''/items'' [] \<lparr>isMounted = True, replaced = [(''/items'', [])]\<rparr>
     = \<lparr>isMounted = True, replaced = [(''/items'', []), (''/items'', [])]\<rparr>
   \<and> createSearchParamsWithMany
      (getSearchParamsUpdates False [''page'']
         [''page'' \<mapsto> \<lparr>defaultValue = Some ''1'', schema = None, onParseError = Some Remove\<rparr>] [])
      [] [''page'' \<mapsto> \<lparr>defaultValue = Some ''1'', schema = None, onParseError = Some Remove\<rparr>]
     = []
   \<and> getSearchParamsUpdates True [''page'']
        [''page'' \<mapsto> \<lparr>defaultValue = Some ''1'', schema = None, onParseError = Some Remove\<rparr>] []
     = [(''page'', [])]
   \<and> createSearchParamsWithMany
        (getSearchParamsUpdates False [''page'']
           [''page'' \<mapsto> \<lparr>defaultValue = Some ''1'',
                             schema = Some (zod_table [([], ''0''), (''1'', ''1'')]),
                             onParseError = Some Remove\<rparr>]
           [(''page'', ''abc'')])
        [(''page'', ''abc'')]
        [''page'' \<mapsto> \<lparr>defaultValue = Some ''1'',
                          schema = Some (zod_table [([], ''0''), (''1'', ''1'')]),
                          onParseError = Some Remove\<rparr>]
     = []
   \<and> createSearchParamsWithMany
        (getSearchParamsUpdates True [''page'']
           [''page'' \<mapsto> \<lparr>defaultValue = Some ''1'',
                             schema = Some (zod_table [([], ''0''), (''1'', ''1'')]),
                             onParseError = Some Remove\<rparr>]
           [])
        []
        [''page'' \<mapsto> \<lparr>defaultValue = Some ''1'',
                          schema = Some (zod_table [([], ''0''), (''1'', ''1'')]),
                          onParseError = Some Remove\<rparr>]
     = [(''page'', ''0'')]
   \<and> createSearchParamsWithMany
        (getSearchParamsUpdates False [''page'']
           [''page'' \<mapsto> \<lparr>defaultValue = Some ''x'', schema = Some (zod_table [([], [])]),
                             onParseError = None\<rparr>] [])
        [] [''page'' \<mapsto> \<lparr>defaultValue = Some ''x'', schema = Some (zod_table [([], [])]),
                              onParseError = None\<rparr>]
     = [(''page'', [])]
   \<and> getSearchParamsUpdates True [''page'']
        [''page'' \<mapsto> \<lparr>defaultValue = Some ''x'', schema = Some (zod_table [([], [])]),
                          onParseError = None\<rparr>] [(''page'', [])]
     = [(''page'', [])]"
  by (simp add: useQueryStrings_effect_def updateSearchParams_def router_replace_def Let_def
        paramUpdates_of_def no_keys_def hasDefaultValue_def hasSchema_def
        truthy_maybe_def truthy_def strict_neq_def nullish_or_def zod_table_def
        createSearchParamsWithMany_def updateQueryState_def updateQueryState_rest_def
        shouldFallback_def shouldRemove_def onParseError_of_def)

end
